theory Spec2Isabelle
  imports Main "HOL-Library.Char_ord" "HOL-Library.AList"
begin

section \<open>Regular expressions of the Go \<^verbatim>\<open>regexp\<close> package\<close>

text \<open>
  The validation code compiles its patterns with \<^verbatim>\<open>regexp.MustCompile\<close> and asks
  \<^verbatim>\<open>MatchString\<close>. Only the constructs the patterns of this repository use are
  modelled: literals, bracket expressions (a list of inclusive byte ranges),
  alternation, concatenation, \<^verbatim>\<open>?\<close>, \<^verbatim>\<open>+\<close> and \<^verbatim>\<open>*\<close>. Strings are byte
  sequences; every class of the patterns is ASCII, so a byte of a multi-byte
  rune never belongs to one, as no such rune does in Go.
\<close>

datatype rexp =
    Zero
  | One
  | Lit char
  | Class "(char \<times> char) list"
  | Alt rexp rexp
  | Seq rexp rexp
  | Star rexp

definition Opt :: "rexp \<Rightarrow> rexp" where
  "Opt r = Alt r One"

definition Plus :: "rexp \<Rightarrow> rexp" where
  "Plus r = Seq r (Star r)"

fun Word :: "string \<Rightarrow> rexp" where
  "Word [] = One"
| "Word (c # cs) = Seq (Lit c) (Word cs)"

fun in_class :: "(char \<times> char) list \<Rightarrow> char \<Rightarrow> bool" where
  "in_class [] c = False"
| "in_class ((lo, hi) # rs) c = ((lo \<le> c \<and> c \<le> hi) \<or> in_class rs c)"

fun nullable :: "rexp \<Rightarrow> bool" where
  "nullable Zero = False"
| "nullable One = True"
| "nullable (Lit c) = False"
| "nullable (Class rs) = False"
| "nullable (Alt r s) = (nullable r \<or> nullable s)"
| "nullable (Seq r s) = (nullable r \<and> nullable s)"
| "nullable (Star r) = True"

fun deriv :: "char \<Rightarrow> rexp \<Rightarrow> rexp" where
  "deriv c Zero = Zero"
| "deriv c One = Zero"
| "deriv c (Lit d) = (if c = d then One else Zero)"
| "deriv c (Class rs) = (if in_class rs c then One else Zero)"
| "deriv c (Alt r s) = Alt (deriv c r) (deriv c s)"
| "deriv c (Seq r s) =
     (if nullable r then Alt (Seq (deriv c r) s) (deriv c s) else Seq (deriv c r) s)"
| "deriv c (Star r) = Seq (deriv c r) (Star r)"

text \<open>\<^verbatim>\<open>MatchString\<close> of a pattern \<^verbatim>\<open>^r$\<close>: the whole text must match \<open>r\<close>.\<close>

fun MatchString :: "rexp \<Rightarrow> string \<Rightarrow> bool" where
  "MatchString r [] = nullable r"
| "MatchString r (c # cs) = MatchString (deriv c r) cs"

text \<open>\<^verbatim>\<open>MatchString\<close> of a pattern \<^verbatim>\<open>^r\<close> with no end anchor: some prefix matches.\<close>

fun MatchPrefix :: "rexp \<Rightarrow> string \<Rightarrow> bool" where
  "MatchPrefix r [] = nullable r"
| "MatchPrefix r (c # cs) = (nullable r \<or> MatchPrefix (deriv c r) cs)"

subsection \<open>The language of a pattern\<close>

definition conc :: "string set \<Rightarrow> string set \<Rightarrow> string set" where
  "conc A B = {u @ v | u v. u \<in> A \<and> v \<in> B}"

inductive_set star :: "string set \<Rightarrow> string set" for A :: "string set" where
  star_empty: "[] \<in> star A"
| star_step: "u \<in> A \<Longrightarrow> v \<in> star A \<Longrightarrow> u @ v \<in> star A"

fun lang :: "rexp \<Rightarrow> string set" where
  "lang Zero = {}"
| "lang One = {[]}"
| "lang (Lit c) = {[c]}"
| "lang (Class rs) = {[c] | c. in_class rs c}"
| "lang (Alt r s) = lang r \<union> lang s"
| "lang (Seq r s) = conc (lang r) (lang s)"
| "lang (Star r) = star (lang r)"

section \<open>Errors\<close>

text \<open>
  The Go code builds its errors with \<^verbatim>\<open>fmt.Errorf\<close>; each distinct message is a
  constructor, with the value the message interpolates.
\<close>

datatype error =
    EmptyName
  | MalformedName
  | InvalidVendorSegment string
  | InvalidProjectSegment string
  | InvalidNameFormat string
  | DescriptionTooShort
  | InvalidStability string
  | InvalidVersionFormat string
  | ErrInvalidJSON
  | ErrReadingFile
  | ErrUnmarshallingJSON
  | ErrConverting string

section \<open>Package \<^verbatim>\<open>validation\<close>: version constraints\<close>

definition digit :: rexp where
  "digit = Class [(CHR ''0'', CHR ''9'')]"

text \<open>\<^verbatim>\<open>[0-9A-Za-z-]\<close>\<close>

definition idchar :: rexp where
  "idchar = Class [(CHR ''0'', CHR ''9''), (CHR ''A'', CHR ''Z''), (CHR ''a'', CHR ''z''),
                   (CHR ''-'', CHR ''-'')]"

text \<open>\<^verbatim>\<open>\s\<close> is \<^verbatim>\<open>[\t\n\f\r ]\<close> in Go.\<close>

definition space :: rexp where
  "space = Class [(CHR 0x09, CHR 0x0A), (CHR 0x0C, CHR 0x0D), (CHR '' '', CHR '' '')]"

text \<open>\<^verbatim>\<open>[0-9]+(\.[0-9]+)?(\.[0-9]+)?\<close>\<close>

definition numeric3 :: rexp where
  "numeric3 =
     Seq (Plus digit)
       (Seq (Opt (Seq (Lit CHR ''.'') (Plus digit)))
            (Opt (Seq (Lit CHR ''.'') (Plus digit))))"

text \<open>\<^verbatim>\<open>[0-9A-Za-z-]+(\.[0-9A-Za-z-]+)*\<close>\<close>

definition idents :: rexp where
  "idents = Seq (Plus idchar) (Star (Seq (Lit CHR ''.'') (Plus idchar)))"

text \<open>\<^verbatim>\<open>(\^|~|>=|<=|>|<|!=|==)\<close>\<close>

definition operator :: rexp where
  "operator =
     Alt (Lit CHR ''^'') (Alt (Lit CHR ''~'') (Alt (Word ''>='') (Alt (Word ''<='')
       (Alt (Lit CHR ''>'') (Alt (Lit CHR ''<'') (Alt (Word ''!='') (Word ''=='')))))))"

text \<open>
  \<^verbatim>\<open>^(\^|~|>=|<=|>|<|!=|==)?[0-9]+(\.[0-9]+)?(\.[0-9]+)?(\-[0-9A-Za-z-]+(\.[0-9A-Za-z-]+)*)?(\+[0-9A-Za-z-]+(\.[0-9A-Za-z-]+)*)?$\<close>
\<close>

definition versionRegex :: rexp where
  "versionRegex =
     Seq (Opt operator)
       (Seq numeric3
         (Seq (Opt (Seq (Lit CHR ''-'') idents))
              (Opt (Seq (Lit CHR ''+'') idents))))"

text \<open>\<^verbatim>\<open>[><=!]?[0-9]+(\.[0-9]+)?(\.[0-9]+)?\<close>, one clause of the range pattern.\<close>

definition rangeClause :: rexp where
  "rangeClause =
     Seq (Opt (Class [(CHR ''>'', CHR ''>''), (CHR ''<'', CHR ''<''), (CHR ''='', CHR ''=''),
                      (CHR ''!'', CHR ''!'')]))
         numeric3"

text \<open>
  \<^verbatim>\<open>^([><=!]?[0-9]+(\.[0-9]+)?(\.[0-9]+)?)(\s+[><=!]?[0-9]+(\.[0-9]+)?(\.[0-9]+)?)$\<close>
\<close>

definition rangeRegex :: rexp where
  "rangeRegex = Seq rangeClause (Seq (Plus space) rangeClause)"

definition ValidateVersion :: "string \<Rightarrow> error option" where
  "ValidateVersion version =
     (if version = [] then None
      else if version = ''*'' then None
      else if MatchPrefix (Word ''dev-'') version then None
      else if MatchString versionRegex version then None
      else if MatchString rangeRegex version then None
      else Some (InvalidVersionFormat version))"


section \<open>Package \<^verbatim>\<open>dependency\<close>: package names\<close>

text \<open>
  \<^verbatim>\<open>strings.Split(s, sep)\<close> for a separator of one byte: the pieces between the
  occurrences of the separator, one more than there are occurrences.
\<close>

fun Split :: "string \<Rightarrow> char \<Rightarrow> string list" where
  "Split [] sep = [[]]"
| "Split (c # cs) sep =
     (if c = sep then [] # Split cs sep
      else (case Split cs sep of [] \<Rightarrow> [[c]] | p # ps \<Rightarrow> (c # p) # ps))"

definition GetPackageNameParts :: "string \<Rightarrow> string \<times> string \<times> error option" where
  "GetPackageNameParts packageName =
     (let parts = Split packageName CHR ''/'' in
      if length parts \<noteq> 2 then ([], [], Some (InvalidNameFormat packageName))
      else (parts ! 0, parts ! 1, None))"

text \<open>\<^verbatim>\<open>[a-z0-9]\<close>\<close>

definition lower_alnum :: rexp where
  "lower_alnum = Class [(CHR ''a'', CHR ''z''), (CHR ''0'', CHR ''9'')]"

text \<open>\<^verbatim>\<open>^[a-z0-9]([_.-]?[a-z0-9]+)*$\<close>\<close>

definition validNameRegex :: rexp where
  "validNameRegex =
     Seq lower_alnum
       (Star (Seq (Opt (Class [(CHR ''_'', CHR ''_''), (CHR ''.'', CHR ''.''),
                               (CHR ''-'', CHR ''-'')]))
                  (Plus lower_alnum)))"

definition ValidatePackageName :: "string \<Rightarrow> error option" where
  "ValidatePackageName packageName =
     (if packageName = [] then Some EmptyName
      else let parts = Split packageName CHR ''/'' in
        if length parts \<noteq> 2 then Some MalformedName
        else if \<not> MatchString validNameRegex (parts ! 0)
          then Some (InvalidVendorSegment (parts ! 0))
        else if \<not> MatchString validNameRegex (parts ! 1)
          then Some (InvalidProjectSegment (parts ! 1))
        else None)"

section \<open>Package \<^verbatim>\<open>validation\<close>: the document's basic fields\<close>

definition validStabilities :: "string list" where
  "validStabilities = [''dev'', ''alpha'', ''beta'', ''RC'', ''stable'']"

text \<open>The loop that looks \<open>stability\<close> up in \<open>validStabilities\<close>.\<close>

fun stability_listed :: "string \<Rightarrow> string list \<Rightarrow> bool" where
  "stability_listed stability [] = False"
| "stability_listed stability (s # ss) = (if stability = s then True else stability_listed stability ss)"

definition ValidateComposerJSON :: "string \<Rightarrow> string \<Rightarrow> string \<Rightarrow> error option" where
  "ValidateComposerJSON name description stability =
     (case (if name \<noteq> [] then ValidatePackageName name else None) of
        Some err \<Rightarrow> Some err
      | None \<Rightarrow>
          if description \<noteq> [] \<and> length description < 10 then Some DescriptionTooShort
          else if stability \<noteq> [] \<and> \<not> stability_listed stability validStabilities
            then Some (InvalidStability stability)
          else None)"

section \<open>Go maps and dynamically typed values\<close>

text \<open>
  A Go map value is \<^verbatim>\<open>nil\<close> or a reference to a map object that every holder of
  the reference shares. The map objects live in a store; an address is an index
  into the list of objects allocated so far, so that \<^verbatim>\<open>make\<close> appends and returns
  an address no earlier value can hold. A map object is an association list with
  each key once; its order stands for the order in which \<^verbatim>\<open>range\<close> visits the
  entries, which Go leaves open.
\<close>

type_synonym addr = nat

datatype mapref = NilMap | MapRef addr

text \<open>
  The values an \<^verbatim>\<open>interface{}\<close> field holds here: what \<^verbatim>\<open>encoding/json\<close> stores
  (\<^verbatim>\<open>nil\<close>, \<^verbatim>\<open>bool\<close>, \<^verbatim>\<open>float64\<close> written as its literal, \<^verbatim>\<open>string\<close>,
  \<^verbatim>\<open>[]interface{}\<close>, \<^verbatim>\<open>map[string]interface{}\<close>) and the \<^verbatim>\<open>[]string\<close> the tests
  store.
\<close>

datatype any =
    AnyNil
  | AnyBool bool
  | AnyFloat64 string
  | AnyString string
  | AnyStrings "string list"
  | AnySlice "any list"
  | AnyMap mapref

record heap =
  smaps :: "(string \<times> string) list list"
  imaps :: "(string \<times> any) list list"

definition empty_heap :: heap where
  "empty_heap = \<lparr>smaps = [], imaps = []\<rparr>"

datatype panic = NilMapAssignment

text \<open>\<^verbatim>\<open>make(map[string]string)\<close>\<close>

definition make_smap :: "heap \<Rightarrow> heap \<times> mapref" where
  "make_smap h = (h\<lparr>smaps := smaps h @ [[]]\<rparr>, MapRef (length (smaps h)))"

text \<open>The entries \<^verbatim>\<open>range m\<close> visits; a nil map has none.\<close>

definition smap_entries :: "heap \<Rightarrow> mapref \<Rightarrow> (string \<times> string) list" where
  "smap_entries h m = (case m of NilMap \<Rightarrow> [] | MapRef a \<Rightarrow> smaps h ! a)"

text \<open>\<^verbatim>\<open>v, ok := m[k]\<close>; reading a nil map finds nothing.\<close>

definition smap_lookup :: "heap \<Rightarrow> mapref \<Rightarrow> string \<Rightarrow> string option" where
  "smap_lookup h m k = map_of (smap_entries h m) k"

text \<open>\<^verbatim>\<open>m[k] = v\<close>; Go panics with "assignment to entry in nil map" when \<open>m\<close> is nil.\<close>

definition smap_store :: "heap \<Rightarrow> mapref \<Rightarrow> string \<Rightarrow> string \<Rightarrow> panic + heap" where
  "smap_store h m k v =
     (case m of
        NilMap \<Rightarrow> Inl NilMapAssignment
      | MapRef a \<Rightarrow> Inr (h\<lparr>smaps := (smaps h)[a := AList.update k v (smaps h ! a)]\<rparr>))"

text \<open>\<^verbatim>\<open>delete(m, k)\<close>; a no-op on a nil map.\<close>

definition smap_delete :: "heap \<Rightarrow> mapref \<Rightarrow> string \<Rightarrow> heap" where
  "smap_delete h m k =
     (case m of
        NilMap \<Rightarrow> h
      | MapRef a \<Rightarrow> h\<lparr>smaps := (smaps h)[a := AList.delete k (smaps h ! a)]\<rparr>)"

text \<open>The same operations on \<^verbatim>\<open>map[string]interface{}\<close>.\<close>

definition make_imap :: "heap \<Rightarrow> heap \<times> mapref" where
  "make_imap h = (h\<lparr>imaps := imaps h @ [[]]\<rparr>, MapRef (length (imaps h)))"

definition imap_entries :: "heap \<Rightarrow> mapref \<Rightarrow> (string \<times> any) list" where
  "imap_entries h m = (case m of NilMap \<Rightarrow> [] | MapRef a \<Rightarrow> imaps h ! a)"

definition imap_lookup :: "heap \<Rightarrow> mapref \<Rightarrow> string \<Rightarrow> any option" where
  "imap_lookup h m k = map_of (imap_entries h m) k"

definition imap_store :: "heap \<Rightarrow> mapref \<Rightarrow> string \<Rightarrow> any \<Rightarrow> panic + heap" where
  "imap_store h m k v =
     (case m of
        NilMap \<Rightarrow> Inl NilMapAssignment
      | MapRef a \<Rightarrow> Inr (h\<lparr>imaps := (imaps h)[a := AList.update k v (imaps h ! a)]\<rparr>))"

definition imap_delete :: "heap \<Rightarrow> mapref \<Rightarrow> string \<Rightarrow> heap" where
  "imap_delete h m k =
     (case m of
        NilMap \<Rightarrow> h
      | MapRef a \<Rightarrow> h\<lparr>imaps := (imaps h)[a := AList.delete k (imaps h ! a)]\<rparr>)"

text \<open>
  What Go guarantees of every reachable state: a reference points at an allocated
  object, and a map holds each key once.
\<close>

definition smap_ok :: "heap \<Rightarrow> mapref \<Rightarrow> bool" where
  "smap_ok h m =
     (case m of NilMap \<Rightarrow> True
      | MapRef a \<Rightarrow> a < length (smaps h) \<and> distinct (map fst (smaps h ! a)))"

definition imap_ok :: "heap \<Rightarrow> mapref \<Rightarrow> bool" where
  "imap_ok h m =
     (case m of NilMap \<Rightarrow> True
      | MapRef a \<Rightarrow> a < length (imaps h) \<and> distinct (map fst (imaps h ! a)))"

text \<open>The type assertions \<^verbatim>\<open>x.(map[string]interface{})\<close> and \<^verbatim>\<open>x.(string)\<close>.\<close>

definition assert_map :: "any \<Rightarrow> mapref \<times> bool" where
  "assert_map x = (case x of AnyMap m \<Rightarrow> (m, True) | _ \<Rightarrow> (NilMap, False))"

definition assert_string :: "any \<Rightarrow> string \<times> bool" where
  "assert_string x = (case x of AnyString s \<Rightarrow> (s, True) | _ \<Rightarrow> ([], False))"

section \<open>Package \<^verbatim>\<open>dependency\<close>: dependency maps\<close>

definition DependencyExists :: "heap \<Rightarrow> mapref \<Rightarrow> string \<Rightarrow> bool" where
  "DependencyExists h require packageName =
     (if require = NilMap then False
      else (case smap_lookup h require packageName of None \<Rightarrow> False | Some _ \<Rightarrow> True))"

definition AddDependency ::
  "heap \<Rightarrow> mapref \<Rightarrow> string \<Rightarrow> string \<Rightarrow> panic + (heap \<times> error option)" where
  "AddDependency h require packageName version =
     (case ValidatePackageName packageName of
        Some err \<Rightarrow> Inr (h, Some err)
      | None \<Rightarrow>
          (case smap_store h require packageName version of
             Inl p \<Rightarrow> Inl p
           | Inr h' \<Rightarrow> Inr (h', None)))"

definition RemoveDependency :: "heap \<Rightarrow> mapref \<Rightarrow> string \<Rightarrow> heap \<times> bool" where
  "RemoveDependency h require packageName =
     (if require = NilMap then (h, False)
      else (case smap_lookup h require packageName of
              None \<Rightarrow> (h, False)
            | Some _ \<Rightarrow> (smap_delete h require packageName, True)))"

text \<open>The loop \<^verbatim>\<open>for pkg, version := range src { result[pkg] = version }\<close>.\<close>

fun store_all :: "heap \<Rightarrow> mapref \<Rightarrow> (string \<times> string) list \<Rightarrow> panic + heap" where
  "store_all h result [] = Inr h"
| "store_all h result ((pkg, version) # rest) =
     (case smap_store h result pkg version of
        Inl p \<Rightarrow> Inl p
      | Inr h' \<Rightarrow> store_all h' result rest)"

definition MergeDependencies :: "heap \<Rightarrow> mapref \<Rightarrow> mapref \<Rightarrow> panic + (heap \<times> mapref)" where
  "MergeDependencies h require requireDev =
     (let (h0, result) = make_smap h in
      case store_all h0 result (smap_entries h0 require) of
        Inl p \<Rightarrow> Inl p
      | Inr h1 \<Rightarrow>
          (case store_all h1 result (smap_entries h1 requireDev) of
             Inl p \<Rightarrow> Inl p
           | Inr h2 \<Rightarrow> Inr (h2, result)))"

section \<open>Package \<^verbatim>\<open>autoload\<close>\<close>

record Autoload =
  PSR0 :: any
  PSR4 :: any
  Classmap :: "string list"
  Files :: "string list"
  ExcludeFrom :: "string list"

text \<open>
  The loop of \<^verbatim>\<open>GetPSR4Map\<close>:
  \<^verbatim>\<open>for ns, path := range psr4Map { if pathStr, ok := path.(string); ok { result[ns] = pathStr } }\<close>
\<close>

fun copy_strings :: "heap \<Rightarrow> mapref \<Rightarrow> (string \<times> any) list \<Rightarrow> panic + heap" where
  "copy_strings h result [] = Inr h"
| "copy_strings h result ((ns, path) # rest) =
     (let (pathStr, ok) = assert_string path in
      if ok then
        (case smap_store h result ns pathStr of
           Inl p \<Rightarrow> Inl p
         | Inr h' \<Rightarrow> copy_strings h' result rest)
      else copy_strings h result rest)"

definition GetPSR4Map :: "heap \<Rightarrow> Autoload \<Rightarrow> panic + (heap \<times> mapref \<times> bool)" where
  "GetPSR4Map h a =
     (let (psr4Map, ok) = assert_map (PSR4 a) in
      if \<not> ok then Inr (h, NilMap, False)
      else
        (let (h0, result) = make_smap h in
         case copy_strings h0 result (imap_entries h0 psr4Map) of
           Inl p \<Rightarrow> Inl p
         | Inr h1 \<Rightarrow> Inr (h1, result, True)))"

text \<open>
  \<open>SetPSR4\<close> writes through its \<^verbatim>\<open>*Autoload\<close>: the structure it leaves behind is
  returned with the store.
\<close>

definition SetPSR4 :: "heap \<Rightarrow> Autoload \<Rightarrow> string \<Rightarrow> string \<Rightarrow> panic + (heap \<times> Autoload)" where
  "SetPSR4 h a namespace path =
     (let (psr4Map, ok) = assert_map (PSR4 a);
          (h0, psr4Map', a') =
            (if \<not> ok then
               (let (h', fresh) = make_imap h in (h', fresh, a\<lparr>PSR4 := AnyMap fresh\<rparr>))
             else (h, psr4Map, a))
      in case imap_store h0 psr4Map' namespace (AnyString path) of
           Inl p \<Rightarrow> Inl p
         | Inr h1 \<Rightarrow> Inr (h1, a'))"

definition RemovePSR4 :: "heap \<Rightarrow> Autoload \<Rightarrow> string \<Rightarrow> heap \<times> bool" where
  "RemovePSR4 h a namespace =
     (let (psr4Map, ok) = assert_map (PSR4 a) in
      if \<not> ok then (h, False)
      else (case imap_lookup h psr4Map namespace of
              None \<Rightarrow> (h, False)
            | Some _ \<Rightarrow> (imap_delete h psr4Map namespace, True)))"


section \<open>Package \<^verbatim>\<open>composer\<close>: the document\<close>

text \<open>
  The fields of \<^verbatim>\<open>ComposerJSON\<close> that the functions below read or write. The other
  fields of the structure are carried along untouched by all of them and are left
  out.
\<close>

record ComposerJSON =
  Name :: string
  Description :: string
  Type :: string
  License :: any
  Require :: mapref
  RequireDev :: mapref
  Autoload :: Autoload
  AutoloadDev :: Autoload
  MinimumStability :: string

definition zero_Autoload :: Autoload where
  "zero_Autoload = \<lparr>PSR0 = AnyNil, PSR4 = AnyNil, Classmap = [], Files = [], ExcludeFrom = []\<rparr>"

text \<open>The zero value of the structure, what \<^verbatim>\<open>var composer ComposerJSON\<close> declares.\<close>

definition zero_ComposerJSON :: ComposerJSON where
  "zero_ComposerJSON =
     \<lparr>Name = [], Description = [], Type = [], License = AnyNil, Require = NilMap,
      RequireDev = NilMap, Autoload = zero_Autoload, AutoloadDev = zero_Autoload,
      MinimumStability = []\<rparr>"

text \<open>
  \<open>ucfirst\<close> converts to runes, so \<^verbatim>\<open>r[0]\<close> is the first rune; a rune in
  \<^verbatim>\<open>'a'..'z'\<close> is the single byte of the same value, and text that is valid
  UTF-8 comes back from the conversion unchanged.
\<close>

definition ucfirst :: "string \<Rightarrow> string" where
  "ucfirst s =
     (case s of
        [] \<Rightarrow> []
      | c # cs \<Rightarrow>
          if CHR ''a'' \<le> c \<and> c \<le> CHR ''z''
          then char_of ((of_char c :: nat) - of_char CHR ''a'' + of_char CHR ''A'') # cs
          else c # cs)"

definition toNamespace :: "string \<Rightarrow> string \<Rightarrow> string" where
  "toNamespace vendor project = ucfirst vendor @ [CHR 0x5C] @ ucfirst project"

definition CreateNew ::
  "heap \<Rightarrow> string \<Rightarrow> string \<Rightarrow> panic + (heap \<times> (error + ComposerJSON))" where
  "CreateNew h name description =
     (case (if name \<noteq> [] then ValidatePackageName name else None) of
        Some err \<Rightarrow> Inr (h, Inl err)
      | None \<Rightarrow>
          (case ValidateComposerJSON name description [] of
             Some err \<Rightarrow> Inr (h, Inl err)
           | None \<Rightarrow>
               (let (h0, psr4Map) = make_imap h in
                case (if name \<noteq> [] then
                        (let (vendorName, projectName, _) = GetPackageNameParts name;
                             namespace = toNamespace vendorName projectName
                         in imap_store h0 psr4Map (namespace @ [CHR 0x5C]) (AnyString ''src/''))
                      else Inr h0) of
                  Inl p \<Rightarrow> Inl p
                | Inr h1 \<Rightarrow>
                    (let (h2, require) = make_smap h1;
                         (h3, requireDev) = make_smap h2
                     in Inr (h3, Inr (zero_ComposerJSON
                          \<lparr>Name := name,
                           Description := description,
                           Type := ''library'',
                           License := AnyString ''MIT'',
                           Require := require,
                           RequireDev := requireDev,
                           Autoload := zero_Autoload\<lparr>PSR4 := AnyMap psr4Map\<rparr>\<rparr>))))))"

text \<open>The methods of \<^verbatim>\<open>*ComposerJSON\<close> that hand the document's fields on.\<close>

definition ComposerJSON_DependencyExists :: "heap \<Rightarrow> ComposerJSON \<Rightarrow> string \<Rightarrow> bool" where
  "ComposerJSON_DependencyExists h c packageName = DependencyExists h (Require c) packageName"

definition ComposerJSON_AddDependency ::
  "heap \<Rightarrow> ComposerJSON \<Rightarrow> string \<Rightarrow> string \<Rightarrow> panic + (heap \<times> error option)" where
  "ComposerJSON_AddDependency h c packageName version =
     AddDependency h (Require c) packageName version"

definition ComposerJSON_AddDevDependency ::
  "heap \<Rightarrow> ComposerJSON \<Rightarrow> string \<Rightarrow> string \<Rightarrow> panic + (heap \<times> error option)" where
  "ComposerJSON_AddDevDependency h c packageName version =
     AddDependency h (RequireDev c) packageName version"

definition ComposerJSON_GetAllDependencies ::
  "heap \<Rightarrow> ComposerJSON \<Rightarrow> panic + (heap \<times> mapref)" where
  "ComposerJSON_GetAllDependencies h c = MergeDependencies h (Require c) (RequireDev c)"

definition ComposerJSON_GetPSR4Map ::
  "heap \<Rightarrow> ComposerJSON \<Rightarrow> panic + (heap \<times> mapref \<times> bool)" where
  "ComposerJSON_GetPSR4Map h c = GetPSR4Map h (Autoload c)"

definition ComposerJSON_SetPSR4 ::
  "heap \<Rightarrow> ComposerJSON \<Rightarrow> string \<Rightarrow> string \<Rightarrow> panic + (heap \<times> ComposerJSON)" where
  "ComposerJSON_SetPSR4 h c namespace path =
     (case SetPSR4 h (Autoload c) namespace path of
        Inl p \<Rightarrow> Inl p
      | Inr (h', a') \<Rightarrow> Inr (h', c\<lparr>Autoload := a'\<rparr>))"

definition ComposerJSON_RemovePSR4 :: "heap \<Rightarrow> ComposerJSON \<Rightarrow> string \<Rightarrow> heap \<times> bool" where
  "ComposerJSON_RemovePSR4 h c namespace = RemovePSR4 h (Autoload c) namespace"

section \<open>Recognising JSON\<close>

text \<open>
  \<^verbatim>\<open>json.Valid\<close> and \<^verbatim>\<open>json.Unmarshal\<close> belong to the Go standard library, not to
  this repository. \<^verbatim>\<open>json.Valid\<close> is represented by a recogniser of what the
  library's scanner accepts: the JSON grammar over bytes, with white space around
  every token, no byte below \<^verbatim>\<open>0x20\<close> inside a string, and at most 10000 arrays
  and objects inside one another. The recogniser builds no value; it reports
  the kind of the top-level value. It is given fuel, one more than twice the
  length of the text: a nesting level costs two units and a further element or
  member one.
\<close>

datatype json_kind = JNull | JBool | JNumber | JString | JArray | JObject

definition maxNestingDepth :: nat where
  "maxNestingDepth = 10000"

definition is_ws :: "char \<Rightarrow> bool" where
  "is_ws c = (c = CHR '' '' \<or> c = CHR 0x09 \<or> c = CHR 0x0A \<or> c = CHR 0x0D)"

definition skip_ws :: "string \<Rightarrow> string" where
  "skip_ws s = dropWhile is_ws s"

definition is_digit :: "char \<Rightarrow> bool" where
  "is_digit c = (CHR ''0'' \<le> c \<and> c \<le> CHR ''9'')"

definition is_hex :: "char \<Rightarrow> bool" where
  "is_hex c = (is_digit c \<or> (CHR ''a'' \<le> c \<and> c \<le> CHR ''f'') \<or> (CHR ''A'' \<le> c \<and> c \<le> CHR ''F''))"

definition expect :: "char \<Rightarrow> string \<Rightarrow> string option" where
  "expect c s = (case s of [] \<Rightarrow> None | d # r \<Rightarrow> if d = c then Some r else None)"

text \<open>The byte after a backslash, \<^verbatim>\<open>u\<close> apart: one of \<^verbatim>\<open>" \ / b f n r t\<close>.\<close>

definition is_escape :: "char \<Rightarrow> bool" where
  "is_escape e =
     (e = CHR 0x22 \<or> e = CHR 0x5C \<or> e = CHR ''/'' \<or> e = CHR ''b'' \<or> e = CHR ''f'' \<or>
      e = CHR ''n'' \<or> e = CHR ''r'' \<or> e = CHR ''t'')"

text \<open>The text after an opening quote: what follows the closing quote.\<close>

fun scan_string :: "string \<Rightarrow> string option" where
  "scan_string [] = None"
| "scan_string [c] = (if c = CHR 0x22 then Some [] else None)"
| "scan_string (c # e # cs) =
     (if c = CHR 0x22 then Some (e # cs)
      else if c = CHR 0x5C then
        (if e = CHR ''u'' then
           (if 4 \<le> length cs \<and> list_all is_hex (take 4 cs) then scan_string (drop 4 cs)
            else None)
         else if is_escape e then scan_string cs
         else None)
      else if c < CHR 0x20 then None
      else scan_string (e # cs))"

text \<open>One or more digits: what follows them.\<close>

definition scan_digits :: "string \<Rightarrow> string option" where
  "scan_digits s =
     (if takeWhile is_digit s = [] then None else Some (dropWhile is_digit s))"

text \<open>\<^verbatim>\<open>-?(0|[1-9][0-9]*)(\.[0-9]+)?([eE][+-]?[0-9]+)?\<close>: what follows the number.\<close>

definition scan_number :: "string \<Rightarrow> string option" where
  "scan_number s =
     (let s1 = (case expect CHR ''-'' s of Some r \<Rightarrow> r | None \<Rightarrow> s) in
      case (case expect CHR ''0'' s1 of Some r \<Rightarrow> Some r | None \<Rightarrow> scan_digits s1) of
        None \<Rightarrow> None
      | Some s2 \<Rightarrow>
          (case (case expect CHR ''.'' s2 of None \<Rightarrow> Some s2 | Some r \<Rightarrow> scan_digits r) of
             None \<Rightarrow> None
           | Some s3 \<Rightarrow>
               (case s3 of
                  [] \<Rightarrow> Some s3
                | x # s4 \<Rightarrow>
                    if x = CHR ''e'' \<or> x = CHR ''E'' then
                      scan_digits
                        (case s4 of
                           [] \<Rightarrow> s4
                         | y # r \<Rightarrow> if y = CHR ''+'' \<or> y = CHR ''-'' then r else s4)
                    else Some s3)))"

text \<open>
  A value at the start of the text, inside \<open>depth\<close> arrays and objects: its kind
  and what follows it. \<open>scan_elements\<close> reads the elements of an array up to its
  closing bracket, \<open>scan_members\<close> the members of an object up to its closing
  brace.
\<close>

fun scan_value :: "nat \<Rightarrow> nat \<Rightarrow> string \<Rightarrow> (json_kind \<times> string) option"
  and scan_elements :: "nat \<Rightarrow> nat \<Rightarrow> string \<Rightarrow> string option"
  and scan_members :: "nat \<Rightarrow> nat \<Rightarrow> string \<Rightarrow> string option"
where
  "scan_value 0 depth s = None"
| "scan_value (Suc n) depth s =
     (case s of
        [] \<Rightarrow> None
      | c # cs \<Rightarrow>
          if c = CHR ''{'' then
            (if maxNestingDepth \<le> depth then None
             else (case expect CHR ''}'' (skip_ws cs) of
                     Some r \<Rightarrow> Some (JObject, r)
                   | None \<Rightarrow> map_option (Pair JObject) (scan_members n (Suc depth) (skip_ws cs))))
          else if c = CHR ''['' then
            (if maxNestingDepth \<le> depth then None
             else (case expect CHR '']'' (skip_ws cs) of
                     Some r \<Rightarrow> Some (JArray, r)
                   | None \<Rightarrow> map_option (Pair JArray) (scan_elements n (Suc depth) (skip_ws cs))))
          else if c = CHR 0x22 then map_option (Pair JString) (scan_string cs)
          else if take 4 s = ''null'' then Some (JNull, drop 4 s)
          else if take 4 s = ''true'' then Some (JBool, drop 4 s)
          else if take 5 s = ''false'' then Some (JBool, drop 5 s)
          else map_option (Pair JNumber) (scan_number s))"
| "scan_elements 0 depth s = None"
| "scan_elements (Suc n) depth s =
     (case scan_value n depth s of
        None \<Rightarrow> None
      | Some (k, r) \<Rightarrow>
          (case skip_ws r of
             [] \<Rightarrow> None
           | d # r' \<Rightarrow>
               if d = CHR '','' then scan_elements n depth (skip_ws r')
               else if d = CHR '']'' then Some r'
               else None))"
| "scan_members 0 depth s = None"
| "scan_members (Suc n) depth s =
     (case expect CHR 0x22 s of
        None \<Rightarrow> None
      | Some s1 \<Rightarrow>
          (case scan_string s1 of
             None \<Rightarrow> None
           | Some s2 \<Rightarrow>
               (case expect CHR '':'' (skip_ws s2) of
                  None \<Rightarrow> None
                | Some s3 \<Rightarrow>
                    (case scan_value n depth (skip_ws s3) of
                       None \<Rightarrow> None
                     | Some (k, r) \<Rightarrow>
                         (case skip_ws r of
                            [] \<Rightarrow> None
                          | d # r' \<Rightarrow>
                              if d = CHR '','' then scan_members n depth (skip_ws r')
                              else if d = CHR ''}'' then Some r'
                              else None)))))"

text \<open>One JSON value with white space around it and nothing else: its kind.\<close>

definition json_scan :: "string \<Rightarrow> json_kind option" where
  "json_scan data =
     (case scan_value (Suc (2 * length data)) 0 (skip_ws data) of
        None \<Rightarrow> None
      | Some (k, r) \<Rightarrow> if skip_ws r = [] then Some k else None)"

text \<open>\<^verbatim>\<open>json.Valid(data)\<close>\<close>

definition json_Valid :: "string \<Rightarrow> bool" where
  "json_Valid data = (case json_scan data of None \<Rightarrow> False | Some _ \<Rightarrow> True)"

text \<open>
  \<^verbatim>\<open>json.Unmarshal(data, &result)\<close> for \<^verbatim>\<open>var result map[string]interface{}\<close>; \<open>None\<close>
  is an error. Text that is not JSON is an error; \<^verbatim>\<open>null\<close> leaves \<open>result\<close>
  nil and is no error; an array, a string, a number or a boolean cannot be
  stored in a map and is an error. What the library does with an object is the
  parameter \<open>object\<close>: it stores a new map, at the address returned, or it
  fails, as it does on a number that no \<^verbatim>\<open>float64\<close> holds.
\<close>

definition json_Unmarshal_map ::
  "(heap \<Rightarrow> string \<Rightarrow> (heap \<times> addr) option) \<Rightarrow> heap \<Rightarrow> string \<Rightarrow> (heap \<times> mapref) option" where
  "json_Unmarshal_map object h data =
     (case json_scan data of
        None \<Rightarrow> None
      | Some JNull \<Rightarrow> Some (h, NilMap)
      | Some JObject \<Rightarrow>
          (case object h data of None \<Rightarrow> None | Some (h', a) \<Rightarrow> Some (h', MapRef a))
      | Some _ \<Rightarrow> None)"

section \<open>Package \<^verbatim>\<open>parser\<close> and the document's \<open>Parse\<close>\<close>


text \<open>
  \<open>Parse\<close> takes an \<^verbatim>\<open>io.Reader\<close>; what matters of it is what \<^verbatim>\<open>io.ReadAll\<close>
  delivers: the bytes, or a failure (\<open>None\<close>).
\<close>

definition parser_Parse ::
  "(heap \<Rightarrow> string \<Rightarrow> (heap \<times> addr) option) \<Rightarrow> heap \<Rightarrow> string option
     \<Rightarrow> error + (heap \<times> mapref)" where
  "parser_Parse object h r =
     (case r of
        None \<Rightarrow> Inl ErrReadingFile
      | Some data \<Rightarrow>
          if \<not> json_Valid data then Inl ErrInvalidJSON
          else (case json_Unmarshal_map object h data of
                  None \<Rightarrow> Inl ErrUnmarshallingJSON
                | Some (h', result) \<Rightarrow> Inr (h', result)))"

text \<open>
  \<open>convertToComposerJSON\<close> marshals the raw map and unmarshals the text into a
  \<^verbatim>\<open>ComposerJSON\<close>. A nil map marshals to \<^verbatim>\<open>null\<close>, and unmarshalling \<^verbatim>\<open>null\<close> into
  a structure leaves it as declared and reports no error. For a map that is not
  nil the two library calls are the parameter \<open>decode\<close>.
\<close>

definition convertToComposerJSON ::
  "(heap \<Rightarrow> addr \<Rightarrow> error + (heap \<times> ComposerJSON)) \<Rightarrow> heap \<Rightarrow> mapref
     \<Rightarrow> error + (heap \<times> ComposerJSON)" where
  "convertToComposerJSON decode h data =
     (case data of
        NilMap \<Rightarrow> Inr (h, zero_ComposerJSON)
      | MapRef a \<Rightarrow> decode h a)"

definition composer_Parse ::
  "(heap \<Rightarrow> string \<Rightarrow> (heap \<times> addr) option) \<Rightarrow>
   (heap \<Rightarrow> addr \<Rightarrow> error + (heap \<times> ComposerJSON)) \<Rightarrow> heap \<Rightarrow> string option
     \<Rightarrow> error + (heap \<times> ComposerJSON)" where
  "composer_Parse object decode h r =
     (case parser_Parse object h r of
        Inl err \<Rightarrow> Inl err
      | Inr (h', rawData) \<Rightarrow> convertToComposerJSON decode h' rawData)"

section \<open>The grammars in the words of the specification\<close>

text \<open>
  A numeric component is one or more digits; a version number is one to three
  components joined by dots. White space is what \<^verbatim>\<open>\s\<close> matches.
\<close>

definition is_space :: "char \<Rightarrow> bool" where
  "is_space c = MatchString space [c]"

definition blank :: "string \<Rightarrow> bool" where
  "blank ws = (ws \<noteq> [] \<and> list_all is_space ws)"

definition component :: "string \<Rightarrow> bool" where
  "component s = (s \<noteq> [] \<and> list_all is_digit s)"

fun dotted :: "string list \<Rightarrow> string" where
  "dotted [] = []"
| "dotted [s] = s"
| "dotted (s # t # ts) = s @ ''.'' @ dotted (t # ts)"

definition components :: "string list \<Rightarrow> bool" where
  "components cs = (1 \<le> length cs \<and> length cs \<le> 3 \<and> list_all component cs)"

text \<open>The prefixes a clause of the range pattern admits, and those of a single version.\<close>

definition range_prefixes :: "string list" where
  "range_prefixes = [[], ''>'', ''<'', ''='', ''!'']"







text \<open>The characters that can occur in a text a pattern matches.\<close>

fun uses :: "rexp \<Rightarrow> char \<Rightarrow> bool" where
  "uses Zero c = False"
| "uses One c = False"
| "uses (Lit d) c = (c = d)"
| "uses (Class rs) c = in_class rs c"
| "uses (Alt r s) c = (uses r c \<or> uses s c)"
| "uses (Seq r s) c = (uses r c \<or> uses s c)"
| "uses (Star r) c = uses r c"


text \<open>
  The two segments of a name with one \<^verbatim>\<open>/\<close>: the text before it and the text
  after it.
\<close>

definition vendor_segment :: "string \<Rightarrow> string" where
  "vendor_segment name = takeWhile (\<lambda>c. c \<noteq> CHR ''/'') name"

definition project_segment :: "string \<Rightarrow> string" where
  "project_segment name = drop 1 (dropWhile (\<lambda>c. c \<noteq> CHR ''/'') name)"

text \<open>What a run of stores leaves in the map object they write to.\<close>

fun stored :: "(string \<times> 'v) list \<Rightarrow> (string \<times> 'v) list \<Rightarrow> (string \<times> 'v) list" where
  "stored al [] = al"
| "stored al ((k, v) # es) = stored (AList.update k v al) es"

text \<open>The entries of a \<^verbatim>\<open>map[string]interface{}\<close> whose values are strings.\<close>

fun string_entries :: "(string \<times> any) list \<Rightarrow> (string \<times> string) list" where
  "string_entries [] = []"
| "string_entries ((k, AnyString s) # es) = (k, s) # string_entries es"
| "string_entries (_ # es) = string_entries es"


section \<open>The matcher decides the language of its pattern\<close>

lemma conc_iff: "w \<in> conc A B \<longleftrightarrow> (\<exists>u v. w = u @ v \<and> u \<in> A \<and> v \<in> B)"
  by (auto simp: conc_def)

lemma concI: "u \<in> A \<Longrightarrow> v \<in> B \<Longrightarrow> u @ v \<in> conc A B"
  by (auto simp: conc_def)

lemma nil_in_conc: "[] \<in> conc A B \<longleftrightarrow> [] \<in> A \<and> [] \<in> B"
  by (auto simp: conc_def)

lemma cons_in_conc:
  "c # w \<in> conc A B \<longleftrightarrow>
     ([] \<in> A \<and> c # w \<in> B) \<or> (\<exists>u v. w = u @ v \<and> c # u \<in> A \<and> v \<in> B)"
  by (auto simp: conc_def Cons_eq_append_conv)

lemma star_cons_split:
  assumes "x \<in> star A" and "x = c # w"
  shows "\<exists>u v. w = u @ v \<and> c # u \<in> A \<and> v \<in> star A"
  using assms
proof (induction arbitrary: w rule: star.induct)
  case star_empty
  then show ?case by simp
next
  case (star_step u v)
  show ?case
  proof (cases u)
    case Nil
    with star_step show ?thesis by simp
  next
    case (Cons d u')
    with star_step.prems have "d = c" and "w = u' @ v" by simp_all
    with star_step.hyps Cons show ?thesis by blast
  qed
qed

lemma cons_in_star:
  "c # w \<in> star A \<longleftrightarrow> (\<exists>u v. w = u @ v \<and> c # u \<in> A \<and> v \<in> star A)"
proof
  assume "c # w \<in> star A"
  then show "\<exists>u v. w = u @ v \<and> c # u \<in> A \<and> v \<in> star A"
    by (rule star_cons_split) simp
next
  assume "\<exists>u v. w = u @ v \<and> c # u \<in> A \<and> v \<in> star A"
  then obtain u v where "w = u @ v" "c # u \<in> A" "v \<in> star A" by blast
  then show "c # w \<in> star A"
    using star_step [of "c # u" A v] by simp
qed

lemma nullable_lang: "nullable r \<longleftrightarrow> [] \<in> lang r"
  by (induction r) (auto simp: nil_in_conc intro: star_empty)

lemma deriv_lang: "w \<in> lang (deriv c r) \<longleftrightarrow> c # w \<in> lang r"
proof (induction r arbitrary: w)
  case (Seq r s)
  then show ?case
    by (simp add: cons_in_conc nullable_lang) (auto simp: conc_iff)
next
  case (Star r)
  then show ?case
    by (auto simp: cons_in_star conc_iff)
qed auto

lemma MatchString_lang: "MatchString r w \<longleftrightarrow> w \<in> lang r"
  by (induction w arbitrary: r) (simp_all add: nullable_lang deriv_lang)

lemma MatchPrefix_lang: "MatchPrefix r w \<longleftrightarrow> (\<exists>u v. w = u @ v \<and> u \<in> lang r)"
proof (induction w arbitrary: r)
  case Nil
  then show ?case by (simp add: nullable_lang)
next
  case (Cons c w)
  show ?case
  proof
    assume "MatchPrefix r (c # w)"
    then consider "nullable r" | "MatchPrefix (deriv c r) w" by auto
    then show "\<exists>u v. c # w = u @ v \<and> u \<in> lang r"
    proof cases
      case 1
      then have "c # w = [] @ (c # w) \<and> [] \<in> lang r" by (simp add: nullable_lang)
      then show ?thesis by blast
    next
      case 2
      then obtain u v where "w = u @ v" "u \<in> lang (deriv c r)" using Cons.IH by blast
      then have "c # w = (c # u) @ v \<and> c # u \<in> lang r" by (simp add: deriv_lang)
      then show ?thesis by blast
    qed
  next
    assume "\<exists>u v. c # w = u @ v \<and> u \<in> lang r"
    then obtain u v where uv: "c # w = u @ v" "u \<in> lang r" by blast
    show "MatchPrefix r (c # w)"
    proof (cases u)
      case Nil
      with uv have "nullable r" by (simp add: nullable_lang)
      then show ?thesis by simp
    next
      case (Cons d u')
      with uv have "w = u' @ v" "u' \<in> lang (deriv c r)" by (simp_all add: deriv_lang)
      then have "MatchPrefix (deriv c r) w" using Cons.IH by blast
      then show ?thesis by simp
    qed
  qed
qed

subsection \<open>Texts built from character classes\<close>

lemma uses_lang: "w \<in> lang r \<Longrightarrow> c \<in> set w \<Longrightarrow> uses r c"
proof (induction r arbitrary: w)
  case (Star r)
  from Star.prems(1) have "w \<in> star (lang r)" by simp
  then show ?case using Star.prems(2)
  proof (induction rule: star.induct)
    case star_empty
    then show ?case by simp
  next
    case (star_step u v)
    then show ?case using Star.IH by auto
  qed
next
  case (Seq r s)
  from Seq.prems obtain u v where "w = u @ v" "u \<in> lang r" "v \<in> lang s"
    by (auto simp: conc_iff)
  with Seq.prems(2) Seq.IH show ?case by auto
qed auto

lemma class_star: "\<forall>c \<in> set w. in_class rs c \<Longrightarrow> w \<in> star (lang (Class rs))"
proof (induction w)
  case Nil
  show ?case by (rule star_empty)
next
  case (Cons c w)
  then have "[c] \<in> lang (Class rs)" and "w \<in> star (lang (Class rs))" by simp_all
  then have "[c] @ w \<in> star (lang (Class rs))" by (rule star_step)
  then show ?case by simp
qed

lemma class_plus:
  assumes "w \<noteq> []" and "\<forall>c \<in> set w. in_class rs c"
  shows "w \<in> lang (Plus (Class rs))"
proof -
  from assms obtain c w' where w: "w = c # w'" by (cases w) auto
  with assms(2) have "[c] \<in> lang (Class rs)" by simp
  moreover from w assms(2) have "w' \<in> star (lang (Class rs))"
    by (intro class_star) simp
  ultimately have "[c] @ w' \<in> conc (lang (Class rs)) (star (lang (Class rs)))" by (rule concI)
  with w show ?thesis by (simp add: Plus_def)
qed

lemma plus_lang: "w \<in> lang (Plus r) \<Longrightarrow> [] \<notin> lang r \<Longrightarrow> w \<noteq> []"
  by (auto simp: Plus_def conc_iff)

lemma component_lang: "component s \<Longrightarrow> s \<in> lang (Plus digit)"
  unfolding component_def digit_def
  by (rule class_plus) (auto simp: list_all_iff is_digit_def)

lemma opt_lang: "lang (Opt r) = insert [] (lang r)"
  by (auto simp: Opt_def)

lemma dotted_lang: "components cs \<Longrightarrow> dotted cs \<in> lang numeric3"
proof -
  assume cs: "components cs"
  have dot: "s \<in> lang (Plus digit) \<Longrightarrow> ''.'' @ s \<in> lang (Opt (Seq (Lit CHR ''.'') (Plus digit)))" for s
    by (simp add: opt_lang conc_iff)
  have none: "[] \<in> lang (Opt (Seq (Lit CHR ''.'') (Plus digit)))"
    by (simp add: opt_lang)
  from cs consider a where "cs = [a]" | a b where "cs = [a, b]" | a b c where "cs = [a, b, c]"
    unfolding components_def
    by (cases cs; cases "tl cs"; cases "tl (tl cs)"; cases "tl (tl (tl cs))") auto
  then show ?thesis
  proof cases
    case 1
    with cs have "a \<in> lang (Plus digit)" by (simp add: components_def component_lang)
    from concI [OF this concI [OF none none]] 1 show ?thesis by (simp add: numeric3_def)
  next
    case 2
    with cs have "a \<in> lang (Plus digit)" "b \<in> lang (Plus digit)"
      by (simp_all add: components_def component_lang)
    from concI [OF this(1) concI [OF dot [OF this(2)] none]] 2 show ?thesis
      by (simp add: numeric3_def)
  next
    case 3
    with cs have "a \<in> lang (Plus digit)" "b \<in> lang (Plus digit)" "c \<in> lang (Plus digit)"
      by (simp_all add: components_def component_lang)
    from concI [OF this(1) concI [OF dot [OF this(2)] dot [OF this(3)]]] 3 show ?thesis
      by (simp add: numeric3_def)
  qed
qed

lemma range_prefix_lang:
  "p \<in> set range_prefixes \<Longrightarrow>
     p \<in> lang (Opt (Class [(CHR ''>'', CHR ''>''), (CHR ''<'', CHR ''<''), (CHR ''='', CHR ''=''),
                      (CHR ''!'', CHR ''!'')]))"
  by (auto simp: range_prefixes_def opt_lang)

lemma clause_lang:
  "p \<in> set range_prefixes \<Longrightarrow> components cs \<Longrightarrow> p @ dotted cs \<in> lang rangeClause"
  unfolding rangeClause_def lang.simps
  by (intro concI range_prefix_lang dotted_lang)

lemma is_space_class:
  "is_space c = in_class [(CHR 0x09, CHR 0x0A), (CHR 0x0C, CHR 0x0D), (CHR '' '', CHR '' '')] c"
  by (simp add: is_space_def space_def)

lemma blank_lang: "blank ws \<Longrightarrow> ws \<in> lang (Plus space)"
  unfolding blank_def space_def
  by (rule class_plus) (simp_all add: list_all_iff is_space_class)

lemma range_lang:
  assumes "p \<in> set range_prefixes" "components cs" "blank ws"
    and "q \<in> set range_prefixes" "components ds"
  shows "(p @ dotted cs) @ ws @ (q @ dotted ds) \<in> lang rangeRegex"
  unfolding rangeRegex_def lang.simps
  by (intro concI clause_lang blank_lang assms)


section \<open>Version constraints: the range branch\<close>

lemma uses_space: "uses (Plus space) c \<Longrightarrow> (of_char c :: nat) \<le> 32"
  by (auto simp: Plus_def space_def less_eq_char_def)

lemma uses_version: "uses versionRegex c \<Longrightarrow> (of_char c :: nat) > 32"
  by (auto simp: Plus_def Opt_def versionRegex_def operator_def numeric3_def
      idents_def digit_def idchar_def less_eq_char_def)

lemma space_not_in_version: "uses (Plus space) c \<Longrightarrow> \<not> uses versionRegex c"
  using uses_space uses_version by fastforce

lemma plus_space_nonempty: "w \<in> lang (Plus space) \<Longrightarrow> w \<noteq> []"
  using plus_lang [of w space] by (simp add: space_def)

lemma range_not_version:
  assumes "s \<in> lang rangeRegex"
  shows "s \<notin> lang versionRegex"
proof
  assume v: "s \<in> lang versionRegex"
  from assms obtain a w b where s: "s = a @ w @ b" and w: "w \<in> lang (Plus space)"
    by (auto simp: rangeRegex_def conc_iff)
  from w obtain c where c: "c \<in> set w" using plus_space_nonempty by (cases w) auto
  with w have "uses (Plus space) c" by (rule uses_lang)
  moreover from c s have "c \<in> set s" by simp
  with v have "uses versionRegex c" by (rule uses_lang)
  ultimately show False using space_not_in_version by blast
qed

lemma word_lang: "lang (Word w) = {w}"
  by (induction w) (simp_all add: conc_def)

lemma range_branch:
  assumes "s \<in> lang rangeRegex"
  shows "s \<noteq> [] \<and> s \<noteq> ''*'' \<and> \<not> MatchPrefix (Word ''dev-'') s \<and>
         \<not> MatchString versionRegex s \<and> MatchString rangeRegex s"
proof -
  have no_star: "\<not> uses rangeRegex CHR ''*''"
    by (simp add: rangeRegex_def rangeClause_def numeric3_def Plus_def Opt_def digit_def space_def)
  have no_d: "\<not> uses rangeRegex CHR ''d''"
    by (simp add: rangeRegex_def rangeClause_def numeric3_def Plus_def Opt_def digit_def space_def)
  have "\<not> nullable rangeRegex"
    by (simp add: rangeRegex_def rangeClause_def numeric3_def Plus_def Opt_def digit_def)
  then have "s \<noteq> []"
    using assms nullable_lang [of rangeRegex] by auto
  moreover have "s \<noteq> ''*''"
  proof
    assume "s = ''*''"
    then have "CHR ''*'' \<in> set s" by simp
    with assms have "uses rangeRegex CHR ''*''" by (rule uses_lang)
    with no_star show False by simp
  qed
  moreover have "\<not> MatchPrefix (Word ''dev-'') s"
  proof
    assume "MatchPrefix (Word ''dev-'') s"
    then obtain v where "s = ''dev-'' @ v"
      unfolding MatchPrefix_lang word_lang by auto
    then have "CHR ''d'' \<in> set s" by simp
    with assms have "uses rangeRegex CHR ''d''" by (rule uses_lang)
    with no_d show False by simp
  qed
  moreover have "\<not> MatchString versionRegex s"
    using range_not_version [OF assms] by (simp add: MatchString_lang)
  moreover have "MatchString rangeRegex s"
    using assms by (simp add: MatchString_lang)
  ultimately show ?thesis by simp
qed

lemma ValidateVersion_range: "MatchString rangeRegex s \<Longrightarrow> ValidateVersion s = None"
  by (simp add: ValidateVersion_def)


text \<open>
  Claim C10. Two version numbers of one to three numeric components, each with no
  prefix or with a single \<^verbatim>\<open>>\<close>, \<^verbatim>\<open><\<close>, \<^verbatim>\<open>=\<close> or \<^verbatim>\<open>!\<close>, separated by white
  space, pass \<open>ValidateVersion\<close>, and they pass in its last branch: the text is
  not empty, is not \<^verbatim>\<open>*\<close>, does not start with \<^verbatim>\<open>dev-\<close>, does not match the
  single-version pattern, and matches the range pattern. \<^verbatim>\<open>1.0 2.0\<close>, with no
  operator at all, is such a text.
\<close>

theorem range_of_bare_versions:
  assumes "p \<in> set range_prefixes" and "components cs" and "blank ws"
    and "q \<in> set range_prefixes" and "components ds"
  shows "ValidateVersion ((p @ dotted cs) @ ws @ (q @ dotted ds)) = None \<and>
         (p @ dotted cs) @ ws @ (q @ dotted ds) \<noteq> [] \<and>
         (p @ dotted cs) @ ws @ (q @ dotted ds) \<noteq> ''*'' \<and>
         \<not> MatchPrefix (Word ''dev-'') ((p @ dotted cs) @ ws @ (q @ dotted ds)) \<and>
         \<not> MatchString versionRegex ((p @ dotted cs) @ ws @ (q @ dotted ds)) \<and>
         MatchString rangeRegex ((p @ dotted cs) @ ws @ (q @ dotted ds))"
  using range_branch [OF range_lang [OF assms]] ValidateVersion_range by blast



theorem range_of_bare_versions_witness:
  "[] \<in> set range_prefixes \<and> components [''1'', ''0''] \<and> blank '' '' \<and>
   components [''2'', ''0''] \<and>
   ValidateVersion ''1.0 2.0'' = None \<and>
   \<not> MatchString versionRegex ''1.0 2.0'' \<and> MatchString rangeRegex ''1.0 2.0''"
proof -
  have a: "[] \<in> set range_prefixes" by (simp add: range_prefixes_def)
  have b: "components [''1'', ''0'']"
    by (simp add: components_def component_def is_digit_def)
  have c: "blank '' ''" by (simp add: blank_def is_space_def space_def)
  have d: "components [''2'', ''0'']"
    by (simp add: components_def component_def is_digit_def)
  from range_of_bare_versions [OF a b c a d]
  have "ValidateVersion ''1.0 2.0'' = None \<and>
        \<not> MatchString versionRegex ''1.0 2.0'' \<and> MatchString rangeRegex ''1.0 2.0''"
    by simp
  with a b c d show ?thesis by blast
qed



section \<open>Version constraints: two single-version tokens\<close>

































section \<open>Package names\<close>

lemma Split_nonempty: "Split s sep \<noteq> []"
  by (induction s) (auto split: list.splits)

lemma Split_length: "length (Split s sep) = Suc (count_list s sep)"
  by (induction s) (auto split: list.splits simp: Split_nonempty)

lemma Split_without: "sep \<notin> set s \<Longrightarrow> Split s sep = [s]"
  by (induction s) auto

lemma Split_once:
  "count_list s sep = 1 \<Longrightarrow>
     Split s sep = [takeWhile (\<lambda>c. c \<noteq> sep) s, drop 1 (dropWhile (\<lambda>c. c \<noteq> sep) s)]"
proof (induction s)
  case Nil
  then show ?case by simp
next
  case (Cons c cs)
  show ?case
  proof (cases "c = sep")
    case True
    with Cons.prems have "sep \<notin> set cs" by (simp add: count_list_0_iff)
    with True show ?thesis by (simp add: Split_without)
  next
    case False
    with Cons show ?thesis by simp
  qed
qed

text \<open>
  Claim C5. \<open>ValidatePackageName\<close> succeeds exactly for the names with one
  \<^verbatim>\<open>/\<close> whose two segments both belong to the language of
  \<^verbatim>\<open>^[a-z0-9]([_.-]?[a-z0-9]+)*$\<close>. Otherwise its error is the first of: the empty
  name; a name without exactly one \<^verbatim>\<open>/\<close>, which is when \<open>GetPackageNameParts\<close>
  fails to split it; a vendor segment outside the language; a project segment
  outside the language.
\<close>

theorem ValidatePackageName_spec:
  "(ValidatePackageName name = None \<longleftrightarrow>
      count_list name CHR ''/'' = 1 \<and> vendor_segment name \<in> lang validNameRegex \<and>
      project_segment name \<in> lang validNameRegex) \<and>
   (snd (snd (GetPackageNameParts name)) = None \<longleftrightarrow> count_list name CHR ''/'' = 1) \<and>
   ValidatePackageName name =
     (if name = [] then Some EmptyName
      else if count_list name CHR ''/'' \<noteq> 1 then Some MalformedName
      else if vendor_segment name \<notin> lang validNameRegex
        then Some (InvalidVendorSegment (vendor_segment name))
      else if project_segment name \<notin> lang validNameRegex
        then Some (InvalidProjectSegment (project_segment name))
      else None)"
proof (cases "count_list name CHR ''/'' = 1")
  case True
  then have "name \<noteq> []" by auto
  with True Split_once [OF True] show ?thesis
    by (simp add: ValidatePackageName_def GetPackageNameParts_def Let_def MatchString_lang
        vendor_segment_def project_segment_def)
next
  case False
  then show ?thesis
    by (simp add: ValidatePackageName_def GetPackageNameParts_def Let_def Split_length)
qed

theorem ValidatePackageName_spec_witness:
  "ValidatePackageName ''vendor/project'' = None \<and>
   count_list ''vendor/project'' CHR ''/'' = 1 \<and>
   vendor_segment ''vendor/project'' \<in> lang validNameRegex \<and>
   project_segment ''vendor/project'' \<in> lang validNameRegex \<and>
   ValidatePackageName [] = Some EmptyName \<and>
   ValidatePackageName ''vendor'' = Some MalformedName \<and>
   ValidatePackageName ''a/b/c'' = Some MalformedName \<and>
   ValidatePackageName ''Vendor/project'' = Some (InvalidVendorSegment ''Vendor'') \<and>
   ValidatePackageName ''vendor/pro--ject'' = Some (InvalidProjectSegment ''pro--ject'') \<and>
   ValidatePackageName ''-vendor/project-'' = Some (InvalidVendorSegment ''-vendor'')"
proof -
  have v: "ValidatePackageName ''vendor/project'' = None" by code_simp
  with ValidatePackageName_spec [of "''vendor/project''"]
  have "count_list ''vendor/project'' CHR ''/'' = 1 \<and>
        vendor_segment ''vendor/project'' \<in> lang validNameRegex \<and>
        project_segment ''vendor/project'' \<in> lang validNameRegex"
    by blast
  moreover have "ValidatePackageName [] = Some EmptyName"
    "ValidatePackageName ''vendor'' = Some MalformedName"
    "ValidatePackageName ''a/b/c'' = Some MalformedName"
    "ValidatePackageName ''Vendor/project'' = Some (InvalidVendorSegment ''Vendor'')"
    "ValidatePackageName ''vendor/pro--ject'' = Some (InvalidProjectSegment ''pro--ject'')"
    "ValidatePackageName ''-vendor/project-'' = Some (InvalidVendorSegment ''-vendor'')"
    by code_simp+
  ultimately show ?thesis using v by blast
qed



section \<open>Dependency maps\<close>

lemma map_of_rev_distinct: "distinct (map fst es) \<Longrightarrow> map_of (rev es) = map_of es"
proof (induction es)
  case Nil
  show ?case by simp
next
  case (Cons e es)
  obtain k v where e: "e = (k, v)" by (cases e)
  with Cons have "k \<notin> fst ` set es" and IH: "map_of (rev es) = map_of es" by auto
  then have "map_of es k = None" by (simp add: map_of_eq_None_iff)
  with IH e show ?case by (auto simp: map_add_def fun_eq_iff split: option.splits)
qed

lemma map_of_stored: "map_of (stored al es) = map_of al ++ map_of (rev es)"
proof (induction al es rule: stored.induct)
  case (1 al)
  show ?case by simp
next
  case (2 al k v es)
  then show ?case
    by (auto simp: update_conv' map_add_def fun_eq_iff split: option.splits)
qed

lemma distinct_stored: "distinct (map fst al) \<Longrightarrow> distinct (map fst (stored al es))"
  by (induction al es rule: stored.induct) (simp_all add: distinct_update)

lemma store_all_stored:
  "r < length (smaps h) \<Longrightarrow>
     store_all h (MapRef r) es = Inr (h\<lparr>smaps := (smaps h)[r := stored (smaps h ! r) es]\<rparr>)"
  by (induction es arbitrary: h) (auto simp: smap_store_def)


lemma smap_entries_old:
  "smap_ok h m \<Longrightarrow> smap_entries (h\<lparr>smaps := smaps h @ new\<rparr>) m = smap_entries h m"
  by (cases m) (auto simp: smap_ok_def smap_entries_def nth_append)

lemma smap_entries_new:
  "smap_entries (h\<lparr>smaps := smaps h @ [al]\<rparr>) (MapRef (length (smaps h))) = al"
  by (simp add: smap_entries_def)

lemma store_all_last:
  "store_all (h\<lparr>smaps := smaps h @ [al]\<rparr>) (MapRef (length (smaps h))) es =
     Inr (h\<lparr>smaps := smaps h @ [stored al es]\<rparr>)"
  using store_all_stored [of "length (smaps h)" "h\<lparr>smaps := smaps h @ [al]\<rparr>" es]
  by simp

lemma MergeDependencies_result:
  assumes "smap_ok h require" and "smap_ok h requireDev"
  shows "MergeDependencies h require requireDev =
           Inr (h\<lparr>smaps := smaps h @
                  [stored (stored [] (smap_entries h require)) (smap_entries h requireDev)]\<rparr>,
                MapRef (length (smaps h)))"
  unfolding MergeDependencies_def make_smap_def
  by (simp add: smap_entries_old [OF assms(1)] smap_entries_old [OF assms(2)] store_all_last)

text \<open>
  Claim C6. For maps \<open>A\<close> and \<open>B\<close>, either of which may be nil, \<open>MergeDependencies\<close>
  does not panic and returns a map at a new address, one that no map of the store
  had before the call; the new map gives \<open>B\<close>'s value to every key of \<open>B\<close> and
  \<open>A\<close>'s value to every other key; every map that existed before the call, so both
  inputs, is as it was; and when both inputs are nil the new map is empty.
\<close>

theorem MergeDependencies_spec:
  assumes "smap_ok h A" and "smap_ok h B"
  shows "\<exists>h'. MergeDependencies h A B = Inr (h', MapRef (length (smaps h))) \<and>
           length (smaps h') = Suc (length (smaps h)) \<and>
           take (length (smaps h)) (smaps h') = smaps h \<and>
           imaps h' = imaps h \<and>
           smap_entries h' A = smap_entries h A \<and>
           smap_entries h' B = smap_entries h B \<and>
           smap_ok h' (MapRef (length (smaps h))) \<and>
           (\<forall>k. smap_lookup h' (MapRef (length (smaps h))) k =
                 (case smap_lookup h B k of Some v \<Rightarrow> Some v | None \<Rightarrow> smap_lookup h A k)) \<and>
           (A = NilMap \<and> B = NilMap \<longrightarrow> smap_entries h' (MapRef (length (smaps h))) = [])"
proof -
  let ?new = "stored (stored [] (smap_entries h A)) (smap_entries h B)"
  let ?h' = "h\<lparr>smaps := smaps h @ [?new]\<rparr>"
  have dA: "distinct (map fst (smap_entries h A))" and dB: "distinct (map fst (smap_entries h B))"
    using assms by (auto simp: smap_ok_def smap_entries_def split: mapref.splits)
  have old: "smap_entries ?h' m = smap_entries h m" if "smap_ok h m" for m
    using that by (cases m) (auto simp: smap_ok_def smap_entries_def nth_append)
  have "map_of ?new = map_of (smap_entries h A) ++ map_of (smap_entries h B)"
    by (simp add: map_of_stored map_of_rev_distinct dA dB)
  then have look: "smap_lookup ?h' (MapRef (length (smaps h))) k =
      (case smap_lookup h B k of Some v \<Rightarrow> Some v | None \<Rightarrow> smap_lookup h A k)" for k
    by (simp add: smap_lookup_def smap_entries_new map_add_def split: option.splits)
  have "smap_ok ?h' (MapRef (length (smaps h)))"
    by (simp add: smap_ok_def distinct_stored)
  moreover have "A = NilMap \<and> B = NilMap \<longrightarrow> smap_entries ?h' (MapRef (length (smaps h))) = []"
    by (simp add: smap_entries_new) (simp add: smap_entries_def)
  ultimately show ?thesis
    using MergeDependencies_result [OF assms] old [OF assms(1)] old [OF assms(2)] look
    by (intro exI [of _ ?h']) simp
qed

theorem MergeDependencies_spec_witness:
  "smap_ok \<lparr>smaps = [[(''a/x'', ''1''), (''b/y'', ''2'')], [(''b/y'', ''3'')]], imaps = []\<rparr> (MapRef 0) \<and>
   smap_ok \<lparr>smaps = [[(''a/x'', ''1''), (''b/y'', ''2'')], [(''b/y'', ''3'')]], imaps = []\<rparr> (MapRef 1) \<and>
   MergeDependencies \<lparr>smaps = [[(''a/x'', ''1''), (''b/y'', ''2'')], [(''b/y'', ''3'')]], imaps = []\<rparr>
       (MapRef 0) (MapRef 1) =
     Inr (\<lparr>smaps = [[(''a/x'', ''1''), (''b/y'', ''2'')], [(''b/y'', ''3'')],
                      [(''a/x'', ''1''), (''b/y'', ''3'')]], imaps = []\<rparr>, MapRef 2) \<and>
   smap_ok empty_heap NilMap \<and>
   (\<exists>h'. MergeDependencies empty_heap NilMap NilMap = Inr (h', MapRef 0) \<and>
         smap_entries h' (MapRef 0) = [])"
proof -
  let ?h = "\<lparr>smaps = [[(''a/x'', ''1''), (''b/y'', ''2'')], [(''b/y'', ''3'')]], imaps = []\<rparr>"
  have a: "smap_ok ?h (MapRef 0)" and b: "smap_ok ?h (MapRef 1)"
    by (simp_all add: smap_ok_def)
  have n: "smap_ok empty_heap NilMap" by (simp add: smap_ok_def)
  from MergeDependencies_spec [OF a b]
  have "\<exists>h'. MergeDependencies ?h (MapRef 0) (MapRef 1) = Inr (h', MapRef 2)" by auto
  moreover have "MergeDependencies ?h (MapRef 0) (MapRef 1) =
     Inr (\<lparr>smaps = [[(''a/x'', ''1''), (''b/y'', ''2'')], [(''b/y'', ''3'')],
                      [(''a/x'', ''1''), (''b/y'', ''3'')]], imaps = []\<rparr>, MapRef 2)"
    by (simp add: MergeDependencies_def make_smap_def smap_entries_def smap_store_def)
  moreover from MergeDependencies_spec [OF n n]
  have "\<exists>h'. MergeDependencies empty_heap NilMap NilMap = Inr (h', MapRef 0) \<and>
         smap_entries h' (MapRef 0) = []"
    by (auto simp: empty_heap_def)
  ultimately show ?thesis using a b n by blast
qed



section \<open>Reading the PSR-4 slot\<close>

lemma string_entries_keys: "fst ` set (string_entries es) \<subseteq> fst ` set es"
  by (induction es rule: string_entries.induct) auto

lemma string_entries_fresh:
  "k \<notin> fst ` set es \<Longrightarrow> map_of (string_entries es) k = None"
  using string_entries_keys [of es] by (auto simp: map_of_eq_None_iff)

lemma distinct_string_entries:
  "distinct (map fst es) \<Longrightarrow> distinct (map fst (string_entries es))"
  using string_entries_keys
  by (induction es rule: string_entries.induct) (auto simp: subset_iff image_iff)

lemma map_of_string_entries:
  "distinct (map fst es) \<Longrightarrow>
     map_of (string_entries es) k =
       (case map_of es k of Some (AnyString s) \<Rightarrow> Some s | _ \<Rightarrow> None)"
proof (induction es)
  case Nil
  show ?case by simp
next
  case (Cons e es)
  obtain k' v where e: "e = (k', v)" by (cases e)
  with Cons.prems have "map_of (string_entries es) k' = None"
    by (intro string_entries_fresh) simp
  with Cons e show ?case by (cases v) auto
qed

lemma copy_strings_stored:
  "r < length (smaps h) \<Longrightarrow>
     copy_strings h (MapRef r) es =
       Inr (h\<lparr>smaps := (smaps h)[r := stored (smaps h ! r) (string_entries es)]\<rparr>)"
  by (induction es arbitrary: h rule: string_entries.induct)
     (auto simp: smap_store_def assert_string_def)

lemma copy_strings_last:
  "copy_strings (h\<lparr>smaps := smaps h @ [al]\<rparr>) (MapRef (length (smaps h))) es =
     Inr (h\<lparr>smaps := smaps h @ [stored al (string_entries es)]\<rparr>)"
  using copy_strings_stored [of "length (smaps h)" "h\<lparr>smaps := smaps h @ [al]\<rparr>" es]
  by simp

lemma imap_entries_smaps: "imap_entries (h\<lparr>smaps := x\<rparr>) m = imap_entries h m"
  by (cases m) (simp_all add: imap_entries_def)

lemma GetPSR4Map_map:
  "PSR4 a = AnyMap m \<Longrightarrow>
     GetPSR4Map h a =
       Inr (h\<lparr>smaps := smaps h @ [stored [] (string_entries (imap_entries h m))]\<rparr>,
            MapRef (length (smaps h)), True)"
  by (simp add: GetPSR4Map_def assert_map_def make_smap_def imap_entries_smaps copy_strings_last)

lemma GetPSR4Map_other:
  "\<forall>m. PSR4 a \<noteq> AnyMap m \<Longrightarrow> GetPSR4Map h a = Inr (h, NilMap, False)"
  by (cases "PSR4 a") (simp_all add: GetPSR4Map_def assert_map_def)

lemma imap_entries_distinct: "imap_ok h m \<Longrightarrow> distinct (map fst (imap_entries h m))"
  by (cases m) (simp_all add: imap_ok_def imap_entries_def)

lemma GetPSR4Map_lookup:
  assumes "imap_ok h m"
  shows "smap_lookup (h\<lparr>smaps := smaps h @ [stored [] (string_entries (imap_entries h m))]\<rparr>)
           (MapRef (length (smaps h))) k =
         (case imap_lookup h m k of Some (AnyString s) \<Rightarrow> Some s | _ \<Rightarrow> None)"
proof -
  have d: "distinct (map fst (string_entries (imap_entries h m)))"
    using assms by (intro distinct_string_entries imap_entries_distinct)
  show ?thesis
    by (simp add: smap_lookup_def smap_entries_new map_of_stored map_of_rev_distinct d
        map_of_string_entries imap_entries_distinct [OF assms] imap_lookup_def)
qed

text \<open>
  Claim C7. When the slot holds anything but a \<^verbatim>\<open>map[string]interface{}\<close> (nil, a
  string, a list, ...) \<open>GetPSR4Map\<close> returns a nil map and \<open>ok = false\<close>.
  When it holds such a map, \<open>GetPSR4Map\<close> returns \<open>ok = true\<close> and a new map
  whose entries are exactly the entries of the slot's map that have a string as
  value, with that string; this is so too when no entry is left.
\<close>

theorem GetPSR4Map_spec:
  "((\<forall>m. PSR4 a \<noteq> AnyMap m) \<longrightarrow> GetPSR4Map h a = Inr (h, NilMap, False)) \<and>
   (\<forall>m. PSR4 a = AnyMap m \<and> imap_ok h m \<longrightarrow>
      (\<exists>h'. GetPSR4Map h a = Inr (h', MapRef (length (smaps h)), True) \<and>
            take (length (smaps h)) (smaps h') = smaps h \<and> imaps h' = imaps h \<and>
            (\<forall>k. smap_lookup h' (MapRef (length (smaps h))) k =
                  (case imap_lookup h m k of Some (AnyString s) \<Rightarrow> Some s | _ \<Rightarrow> None))))"
proof (intro conjI allI impI)
  assume "\<forall>m. PSR4 a \<noteq> AnyMap m"
  then show "GetPSR4Map h a = Inr (h, NilMap, False)" by (rule GetPSR4Map_other)
next
  fix m
  assume m: "PSR4 a = AnyMap m \<and> imap_ok h m"
  let ?h' = "h\<lparr>smaps := smaps h @ [stored [] (string_entries (imap_entries h m))]\<rparr>"
  from m have "GetPSR4Map h a = Inr (?h', MapRef (length (smaps h)), True)"
    by (simp add: GetPSR4Map_map)
  moreover have "take (length (smaps h)) (smaps ?h') = smaps h \<and> imaps ?h' = imaps h" by simp
  moreover from m have "\<forall>k. smap_lookup ?h' (MapRef (length (smaps h))) k =
      (case imap_lookup h m k of Some (AnyString s) \<Rightarrow> Some s | _ \<Rightarrow> None)"
    using GetPSR4Map_lookup by blast
  ultimately show "\<exists>h'. GetPSR4Map h a = Inr (h', MapRef (length (smaps h)), True) \<and>
            take (length (smaps h)) (smaps h') = smaps h \<and> imaps h' = imaps h \<and>
            (\<forall>k. smap_lookup h' (MapRef (length (smaps h))) k =
                  (case imap_lookup h m k of Some (AnyString s) \<Rightarrow> Some s | _ \<Rightarrow> None))"
    by blast
qed


theorem GetPSR4Map_spec_witness:
  "GetPSR4Map empty_heap (zero_Autoload\<lparr>PSR4 := AnyString ''src/''\<rparr>) = Inr (empty_heap, NilMap, False) \<and>
   GetPSR4Map empty_heap (zero_Autoload\<lparr>PSR4 := AnySlice [AnyString ''src/'']\<rparr>)
     = Inr (empty_heap, NilMap, False) \<and>
   GetPSR4Map empty_heap zero_Autoload = Inr (empty_heap, NilMap, False) \<and>
   imap_ok \<lparr>smaps = [], imaps = [[(''App'', AnyString ''src/''), (''Tests'', AnyStrings [''tests/''])]]\<rparr>
     (MapRef 0) \<and>
   GetPSR4Map \<lparr>smaps = [], imaps = [[(''App'', AnyString ''src/''), (''Tests'', AnyStrings [''tests/''])]]\<rparr>
       (zero_Autoload\<lparr>PSR4 := AnyMap (MapRef 0)\<rparr>)
     = Inr (\<lparr>smaps = [[(''App'', ''src/'')]],
             imaps = [[(''App'', AnyString ''src/''), (''Tests'', AnyStrings [''tests/''])]]\<rparr>,
            MapRef 0, True) \<and>
   imap_ok \<lparr>smaps = [], imaps = [[]]\<rparr> (MapRef 0) \<and>
   GetPSR4Map \<lparr>smaps = [], imaps = [[]]\<rparr> (zero_Autoload\<lparr>PSR4 := AnyMap (MapRef 0)\<rparr>)
     = Inr (\<lparr>smaps = [[]], imaps = [[]]\<rparr>, MapRef 0, True)"
proof -
  let ?h = "\<lparr>smaps = [], imaps = [[(''App'', AnyString ''src/''), (''Tests'', AnyStrings [''tests/''])]]\<rparr>"
  let ?e = "\<lparr>smaps = [], imaps = [[]]\<rparr>"
  have s: "GetPSR4Map empty_heap (zero_Autoload\<lparr>PSR4 := AnyString ''src/''\<rparr>) = Inr (empty_heap, NilMap, False)"
    using GetPSR4Map_spec [of "zero_Autoload\<lparr>PSR4 := AnyString ''src/''\<rparr>" empty_heap] by simp
  have l: "GetPSR4Map empty_heap (zero_Autoload\<lparr>PSR4 := AnySlice [AnyString ''src/'']\<rparr>)
     = Inr (empty_heap, NilMap, False)"
    using GetPSR4Map_spec [of "zero_Autoload\<lparr>PSR4 := AnySlice [AnyString ''src/'']\<rparr>" empty_heap]
    by simp
  have n: "GetPSR4Map empty_heap zero_Autoload = Inr (empty_heap, NilMap, False)"
    using GetPSR4Map_spec [of zero_Autoload empty_heap] by (simp add: zero_Autoload_def)
  have ok: "imap_ok ?h (MapRef 0)" and oke: "imap_ok ?e (MapRef 0)"
    by (simp_all add: imap_ok_def)
  from ok GetPSR4Map_spec [of "zero_Autoload\<lparr>PSR4 := AnyMap (MapRef 0)\<rparr>" ?h]
  have "\<exists>h'. GetPSR4Map ?h (zero_Autoload\<lparr>PSR4 := AnyMap (MapRef 0)\<rparr>) = Inr (h', MapRef 0, True)"
    by auto
  moreover have "GetPSR4Map ?h (zero_Autoload\<lparr>PSR4 := AnyMap (MapRef 0)\<rparr>)
     = Inr (\<lparr>smaps = [[(''App'', ''src/'')]],
             imaps = [[(''App'', AnyString ''src/''), (''Tests'', AnyStrings [''tests/''])]]\<rparr>,
            MapRef 0, True)"
    by (simp add: GetPSR4Map_def assert_map_def assert_string_def make_smap_def imap_entries_def
        smap_store_def)
  moreover have "GetPSR4Map ?e (zero_Autoload\<lparr>PSR4 := AnyMap (MapRef 0)\<rparr>)
     = Inr (\<lparr>smaps = [[]], imaps = [[]]\<rparr>, MapRef 0, True)"
    by (simp add: GetPSR4Map_def assert_map_def make_smap_def imap_entries_def)
  ultimately show ?thesis using s l n ok oke by blast
qed

section \<open>Writing the PSR-4 slot\<close>

lemma SetPSR4_other:
  "\<forall>m. PSR4 a \<noteq> AnyMap m \<Longrightarrow>
     SetPSR4 h a ns p =
       Inr (h\<lparr>imaps := imaps h @ [[(ns, AnyString p)]]\<rparr>,
            a\<lparr>PSR4 := AnyMap (MapRef (length (imaps h)))\<rparr>)"
  by (cases "PSR4 a") (simp_all add: SetPSR4_def assert_map_def make_imap_def imap_store_def)

lemma SetPSR4_map:
  "PSR4 a = AnyMap (MapRef r) \<Longrightarrow>
     SetPSR4 h a ns p =
       Inr (h\<lparr>imaps := (imaps h)[r := AList.update ns (AnyString p) (imaps h ! r)]\<rparr>, a)"
  by (simp add: SetPSR4_def assert_map_def imap_store_def)

lemma SetPSR4_nil_map: "PSR4 a = AnyMap NilMap \<Longrightarrow> SetPSR4 h a ns p = Inl NilMapAssignment"
  by (simp add: SetPSR4_def assert_map_def imap_store_def)

text \<open>
  After \<open>SetPSR4\<close>, \<open>GetPSR4Map\<close> finds the namespace with its path, whatever
  the slot held, a nil \<^verbatim>\<open>map[string]interface{}\<close> apart.
\<close>

lemma SetPSR4_then_GetPSR4Map:
  assumes "PSR4 a \<noteq> AnyMap NilMap" and "\<forall>m. PSR4 a = AnyMap m \<longrightarrow> imap_ok h m"
  shows "\<exists>h1 a1 h2 m. SetPSR4 h a ns p = Inr (h1, a1) \<and>
           GetPSR4Map h1 a1 = Inr (h2, m, True) \<and> smap_lookup h2 m ns = Some p"
proof (cases "\<exists>r. PSR4 a = AnyMap (MapRef r)")
  case True
  then obtain r where r: "PSR4 a = AnyMap (MapRef r)" by blast
  let ?h1 = "h\<lparr>imaps := (imaps h)[r := AList.update ns (AnyString p) (imaps h ! r)]\<rparr>"
  from r assms(2) have ok: "r < length (imaps h)" "distinct (map fst (imaps h ! r))"
    by (simp_all add: imap_ok_def)
  then have ok1: "imap_ok ?h1 (MapRef r)" by (simp add: imap_ok_def distinct_update)
  have "imap_lookup ?h1 (MapRef r) ns = Some (AnyString p)"
    using ok by (simp add: imap_lookup_def imap_entries_def update_conv')
  with GetPSR4Map_lookup [OF ok1, of ns]
  have "smap_lookup (?h1\<lparr>smaps := smaps ?h1 @ [stored [] (string_entries (imap_entries ?h1 (MapRef r)))]\<rparr>)
          (MapRef (length (smaps ?h1))) ns = Some p" by simp
  with SetPSR4_map [OF r, of h ns p] GetPSR4Map_map [OF r, of ?h1] show ?thesis by blast
next
  case False
  with assms(1) have other: "\<forall>m. PSR4 a \<noteq> AnyMap m"
    by (metis mapref.exhaust)
  let ?h1 = "h\<lparr>imaps := imaps h @ [[(ns, AnyString p)]]\<rparr>"
  let ?m = "MapRef (length (imaps h))"
  let ?a1 = "a\<lparr>PSR4 := AnyMap ?m\<rparr>"
  have ok1: "imap_ok ?h1 ?m" by (simp add: imap_ok_def)
  have a1: "PSR4 ?a1 = AnyMap ?m" by simp
  have "imap_lookup ?h1 ?m ns = Some (AnyString p)"
    by (simp add: imap_lookup_def imap_entries_def)
  with GetPSR4Map_lookup [OF ok1, of ns]
  have "smap_lookup (?h1\<lparr>smaps := smaps ?h1 @ [stored [] (string_entries (imap_entries ?h1 ?m))]\<rparr>)
          (MapRef (length (smaps ?h1))) ns = Some p" by simp
  with SetPSR4_other [OF other, of h ns p] GetPSR4Map_map [OF a1, of ?h1] show ?thesis by blast
qed

text \<open>After \<open>RemovePSR4\<close>, \<open>GetPSR4Map\<close> does not find the namespace, whatever the slot holds.\<close>

lemma RemovePSR4_then_GetPSR4Map:
  assumes "\<forall>m. PSR4 a = AnyMap m \<longrightarrow> imap_ok h m"
  shows "\<exists>h1 removed h2 m ok. RemovePSR4 h a ns = (h1, removed) \<and>
           GetPSR4Map h1 a = Inr (h2, m, ok) \<and> smap_lookup h2 m ns = None"
proof (cases "\<exists>m. PSR4 a = AnyMap m")
  case False
  then have "RemovePSR4 h a ns = (h, False)"
    by (cases "PSR4 a") (simp_all add: RemovePSR4_def assert_map_def)
  moreover from False have "GetPSR4Map h a = Inr (h, NilMap, False)"
    by (intro GetPSR4Map_other) simp
  moreover have "smap_lookup h NilMap ns = None" by (simp add: smap_lookup_def smap_entries_def)
  ultimately show ?thesis by blast
next
  case True
  then obtain m where m: "PSR4 a = AnyMap m" by blast
  with assms have ok: "imap_ok h m" by simp
  obtain h1 removed where rm: "RemovePSR4 h a ns = (h1, removed)" by (cases "RemovePSR4 h a ns")
  have gone: "imap_lookup h1 m ns = None" and ok1: "imap_ok h1 m"
    using rm m ok
    by (cases m; auto simp: RemovePSR4_def assert_map_def imap_lookup_def imap_entries_def
        imap_delete_def imap_ok_def delete_conv' distinct_delete split: option.splits)+
  let ?h2 = "h1\<lparr>smaps := smaps h1 @ [stored [] (string_entries (imap_entries h1 m))]\<rparr>"
  from GetPSR4Map_lookup [OF ok1, of ns] gone
  have "smap_lookup ?h2 (MapRef (length (smaps h1))) ns = None" by simp
  with rm GetPSR4Map_map [OF m, of h1] show ?thesis by blast
qed

text \<open>
  Claim C8 fails for one slot: a slot holding a \<^verbatim>\<open>map[string]interface{}\<close> that is
  nil passes the type assertion of \<open>SetPSR4\<close>, so no map is made, and the
  assignment to the nil map panics.
\<close>

theorem SetPSR4_nil_map_panics:
  "SetPSR4 empty_heap (zero_Autoload\<lparr>PSR4 := AnyMap NilMap\<rparr>) (''App'' @ [CHR 0x5C]) ''src/''
     = Inl NilMapAssignment"
  by (simp add: SetPSR4_def assert_map_def imap_store_def)



section \<open>Ingestion\<close>

lemma scan_null: "json_scan ''null'' = Some JNull"
  by code_simp










lemma parser_Parse_kind:
  "json_scan data = Some k \<Longrightarrow>
     parser_Parse object h (Some data) =
       (case k of
          JNull \<Rightarrow> Inr (h, NilMap)
        | JObject \<Rightarrow>
            (case object h data of
               None \<Rightarrow> Inl ErrUnmarshallingJSON
             | Some (h', a) \<Rightarrow> Inr (h', MapRef a))
        | _ \<Rightarrow> Inl ErrUnmarshallingJSON)"
  by (cases k) (auto simp: parser_Parse_def json_Valid_def json_Unmarshal_map_def
      split: option.splits)

lemma parser_Parse_null: "parser_Parse object h (Some ''null'') = Inr (h, NilMap)"
  by (simp add: parser_Parse_kind [OF scan_null])

lemma composer_Parse_null:
  "composer_Parse object decode h (Some ''null'') = Inr (h, zero_ComposerJSON)"
  by (simp add: composer_Parse_def convertToComposerJSON_def parser_Parse_null)




section \<open>The document's dependency accessors\<close>

lemma AddDependency_invalid:
  "ValidatePackageName name = Some err \<Longrightarrow> AddDependency h m name version = Inr (h, Some err)"
  by (simp add: AddDependency_def)

lemma AddDependency_stores:
  "ValidatePackageName name = None \<Longrightarrow>
     AddDependency h (MapRef r) name version =
       Inr (h\<lparr>smaps := (smaps h)[r := AList.update name version (smaps h ! r)]\<rparr>, None)"
  by (simp add: AddDependency_def smap_store_def)

lemma AddDependency_nil:
  "ValidatePackageName name = None \<Longrightarrow>
     AddDependency h NilMap name version = Inl NilMapAssignment"
  by (simp add: AddDependency_def smap_store_def)

text \<open>
  Claim C1 fails on the code: the accessors hand the document's map to
  \<open>AddDependency\<close> as it is, and for a document whose map is nil the assignment
  panics. The zero document is what \<open>composer_Parse\<close> returns for \<^verbatim>\<open>null\<close>; any
  parsed document without the \<^verbatim>\<open>require\<close> key has the same nil map.
\<close>

theorem AddDependency_nil_require_panics:
  "composer_Parse object decode empty_heap (Some ''null'') = Inr (empty_heap, zero_ComposerJSON) \<and>
   Require zero_ComposerJSON = NilMap \<and> RequireDev zero_ComposerJSON = NilMap \<and>
   ValidatePackageName ''vendor/pkg'' = None \<and> ValidateVersion ''^1.0'' = None \<and>
   ComposerJSON_AddDependency empty_heap zero_ComposerJSON ''vendor/pkg'' ''^1.0''
     = Inl NilMapAssignment \<and>
   ComposerJSON_AddDevDependency empty_heap zero_ComposerJSON ''vendor/pkg'' ''^1.0''
     = Inl NilMapAssignment"
proof -
  have v: "ValidatePackageName ''vendor/pkg'' = None" by code_simp
  have w: "ValidateVersion ''^1.0'' = None" by code_simp
  from v have "ComposerJSON_AddDependency empty_heap zero_ComposerJSON ''vendor/pkg'' ''^1.0''
     = Inl NilMapAssignment"
    by (simp add: ComposerJSON_AddDependency_def zero_ComposerJSON_def AddDependency_nil)
  moreover from v have "ComposerJSON_AddDevDependency empty_heap zero_ComposerJSON ''vendor/pkg'' ''^1.0''
     = Inl NilMapAssignment"
    by (simp add: ComposerJSON_AddDevDependency_def zero_ComposerJSON_def AddDependency_nil)
  ultimately show ?thesis using v w composer_Parse_null [of object decode empty_heap]
    by (simp add: zero_ComposerJSON_def)
qed

section \<open>Creating a document\<close>

lemma ValidateComposerJSON_no_stability:
  "ValidateComposerJSON name description [] =
     (case (if name \<noteq> [] then ValidatePackageName name else None) of
        Some err \<Rightarrow> Some err
      | None \<Rightarrow> if description \<noteq> [] \<and> length description < 10 then Some DescriptionTooShort
                else None)"
  by (simp add: ValidateComposerJSON_def)

text \<open>
  Claim C3 does not hold as stated: with the empty name and the description
  \<^verbatim>\<open>short\<close>, \<open>CreateNew\<close> returns the error of the description check and no
  document.
\<close>

theorem CreateNew_empty_name_short_description:
  "CreateNew empty_heap [] ''short'' = Inr (empty_heap, Inl DescriptionTooShort)"
  by (simp add: CreateNew_def ValidateComposerJSON_no_stability)

text \<open>
  Claim C3, amended. With the empty name, \<open>CreateNew\<close> skips the validation of
  the name and still checks the description: it returns a document exactly when
  the description is empty or at least 10 bytes long, and the error
  \<open>DescriptionTooShort\<close> otherwise. The document has the given description,
  the default type and license, two new empty dependency maps and a new empty
  PSR-4 map.
\<close>

theorem CreateNew_empty_name:
  "CreateNew h [] description =
     (if description \<noteq> [] \<and> length description < 10 then Inr (h, Inl DescriptionTooShort)
      else Inr (h\<lparr>smaps := smaps h @ [[], []], imaps := imaps h @ [[]]\<rparr>,
                Inr (zero_ComposerJSON
                       \<lparr>Name := [], Description := description, Type := ''library'',
                        License := AnyString ''MIT'',
                        Require := MapRef (length (smaps h)),
                        RequireDev := MapRef (Suc (length (smaps h))),
                        Autoload := zero_Autoload\<lparr>PSR4 := AnyMap (MapRef (length (imaps h)))\<rparr>\<rparr>)))"
  by (simp add: CreateNew_def ValidateComposerJSON_no_stability make_imap_def make_smap_def)

theorem CreateNew_empty_name_witness:
  "(\<exists>h doc. CreateNew empty_heap [] [] = Inr (h, Inr doc)) \<and>
   (\<exists>h doc. CreateNew empty_heap [] ''ten bytes.'' = Inr (h, Inr doc)) \<and>
   CreateNew empty_heap [] ''nine byte'' = Inr (empty_heap, Inl DescriptionTooShort) \<and>
   ValidatePackageName [] = Some EmptyName"
  using CreateNew_empty_name [of empty_heap "[]"] CreateNew_empty_name [of empty_heap "''ten bytes.''"]
    CreateNew_empty_name [of empty_heap "''nine byte''"]
  by (simp add: ValidatePackageName_def)

text \<open>
  Claim C9. \<open>CreateNew\<close> on \<^verbatim>\<open>vendor/project\<close> and a description of 31 bytes
  returns a document of type \<^verbatim>\<open>library\<close> with license \<^verbatim>\<open>MIT\<close> whose PSR-4 map
  sends \<^verbatim>\<open>Vendor\Project\\<close> to \<^verbatim>\<open>src/\<close>: each segment with its first letter in
  upper case, a backslash between them and one after.
\<close>

theorem CreateNew_vendor_project:
  "\<exists>h' doc h'' m.
     CreateNew h ''vendor/project'' ''A sufficiently long description'' = Inr (h', Inr doc) \<and>
     Name doc = ''vendor/project'' \<and> Type doc = ''library'' \<and> License doc = AnyString ''MIT'' \<and>
     GetPSR4Map h' (Autoload doc) = Inr (h'', m, True) \<and>
     smap_lookup h'' m (''Vendor'' @ [CHR 0x5C] @ ''Project'' @ [CHR 0x5C]) = Some ''src/'' \<and>
     smap_entries h'' m = [(''Vendor'' @ [CHR 0x5C] @ ''Project'' @ [CHR 0x5C], ''src/'')] \<and>
     ucfirst ''vendor'' = ''Vendor'' \<and> ucfirst ''project'' = ''Project'' \<and>
     toNamespace ''vendor'' ''project'' = ''Vendor'' @ [CHR 0x5C] @ ''Project''"
proof -
  have v: "ValidatePackageName ''vendor/project'' = None" by code_simp
  have p: "GetPackageNameParts ''vendor/project'' = (''vendor'', ''project'', None)"
    by (simp add: GetPackageNameParts_def)
  have u: "ucfirst ''vendor'' = ''Vendor''" "ucfirst ''project'' = ''Project''"
    by code_simp+
  then have n: "toNamespace ''vendor'' ''project'' = ''Vendor'' @ [CHR 0x5C] @ ''Project''"
    by (simp add: toNamespace_def)
  let ?key = "''Vendor'' @ [CHR 0x5C] @ ''Project'' @ [CHR 0x5C]"
  let ?h' = "h\<lparr>smaps := smaps h @ [[], []], imaps := imaps h @ [[(?key, AnyString ''src/'')]]\<rparr>"
  let ?doc = "zero_ComposerJSON
                \<lparr>Name := ''vendor/project'', Description := ''A sufficiently long description'',
                 Type := ''library'', License := AnyString ''MIT'',
                 Require := MapRef (length (smaps h)),
                 RequireDev := MapRef (Suc (length (smaps h))),
                 Autoload := zero_Autoload\<lparr>PSR4 := AnyMap (MapRef (length (imaps h)))\<rparr>\<rparr>"
  have c: "CreateNew h ''vendor/project'' ''A sufficiently long description'' = Inr (?h', Inr ?doc)"
    by (simp add: CreateNew_def ValidateComposerJSON_no_stability v p n make_imap_def make_smap_def
        imap_store_def)
  let ?h'' = "?h'\<lparr>smaps := smaps ?h' @ [[(?key, ''src/'')]]\<rparr>"
  have g: "GetPSR4Map ?h' (Autoload ?doc) = Inr (?h'', MapRef (length (smaps ?h')), True)"
    by (simp add: GetPSR4Map_map [of _ "MapRef (length (imaps h))"] imap_entries_def)
  have l: "smap_entries ?h'' (MapRef (length (smaps ?h'))) = [(?key, ''src/'')]"
    using smap_entries_new [of ?h' "[(?key, ''src/'')]"] by simp
  then have "smap_lookup ?h'' (MapRef (length (smaps ?h'))) ?key = Some ''src/''"
    by (simp add: smap_lookup_def)
  with c g l u n show ?thesis by (intro exI [of _ ?h'] exI [of _ ?doc] exI [of _ ?h'']
      exI [of _ "MapRef (length (smaps ?h'))"]) simp
qed


end
